theory Spec2Isabelle
  imports Complex_Main "HOL-Library.Sublist" "HOL-Library.Product_Lexorder"
begin

section \<open>Characters and strings\<close>

text \<open>
  A Python \<open>str\<close> is modelled as a \<open>string\<close>; a character is its code point, here in the
  range 0..255 (Latin-1). The character classes below are the ones CPython uses on that
  range: \<open>str.isspace\<close> (which is also what \<open>str.strip()\<close>, \<open>str.split()\<close> and the regular
  expression class \<open>\s\<close> test), \<open>str.lower\<close>, and the regular expression class \<open>\w\<close>.
\<close>

definition is_space :: "char \<Rightarrow> bool" where
  "is_space c = (let n = (of_char c :: nat) in
     (9 \<le> n \<and> n \<le> 13) \<or> (28 \<le> n \<and> n \<le> 32) \<or> n = 133 \<or> n = 160)"

definition lower_char :: "char \<Rightarrow> char" where
  "lower_char c = (let n = (of_char c :: nat) in
     if (65 \<le> n \<and> n \<le> 90) \<or> (192 \<le> n \<and> n \<le> 222 \<and> n \<noteq> 215)
     then char_of (n + 32) else c)"

definition lower :: "string \<Rightarrow> string" where
  "lower s = map lower_char s"

definition is_lower_alnum :: "char \<Rightarrow> bool" where
  "is_lower_alnum c = (let n = (of_char c :: nat) in
     (97 \<le> n \<and> n \<le> 122) \<or> (48 \<le> n \<and> n \<le> 57))"

definition is_word :: "char \<Rightarrow> bool" where
  "is_word c = (let n = (of_char c :: nat) in
     (48 \<le> n \<and> n \<le> 57) \<or> (65 \<le> n \<and> n \<le> 90) \<or> n = 95 \<or> (97 \<le> n \<and> n \<le> 122)
     \<or> n = 170 \<or> n = 178 \<or> n = 179 \<or> n = 181 \<or> n = 185 \<or> n = 186
     \<or> (188 \<le> n \<and> n \<le> 190) \<or> (192 \<le> n \<and> n \<le> 214) \<or> (216 \<le> n \<and> n \<le> 246)
     \<or> (248 \<le> n \<and> n \<le> 255))"

text \<open>\<open>s.strip()\<close>: whitespace removed at both ends.\<close>

definition strip :: "string \<Rightarrow> string" where
  "strip s = rev (dropWhile is_space (rev (dropWhile is_space s)))"

text \<open>
  \<open>pattern.sub(" ", s)\<close> for a pattern of the form \<open>[class]+\<close>: scanning from the left, every
  maximal run of characters of the class is replaced by one space.
\<close>

function sub_runs :: "(char \<Rightarrow> bool) \<Rightarrow> string \<Rightarrow> string" where
  "sub_runs P [] = []"
| "sub_runs P (c # cs) =
     (if P c then CHR '' '' # sub_runs P (dropWhile P cs) else c # sub_runs P cs)"
  by pat_completeness auto
termination
  by (relation "measure (\<lambda>(P, s). length s)") (auto simp: length_dropWhile_le less_Suc_eq_le)

section \<open>rules.py: helpers\<close>

text \<open>\<open>_strip_chars = re.compile(r"[^a-z0-9\s]+")\<close> and \<open>_norm_ws = re.compile(r"\s+")\<close>.\<close>

definition strip_chars_class :: "char \<Rightarrow> bool" where
  "strip_chars_class c = (\<not> (is_lower_alnum c \<or> is_space c))"

definition normalize_text :: "string \<Rightarrow> string" where
  "normalize_text text =
     (let t = lower (strip text);
          t = sub_runs strip_chars_class t;
          t = sub_runs is_space t
      in t)"


text \<open>
  \<open>s.split(",")\<close>: the pieces between separators, empty pieces kept; the empty string gives
  one empty piece.
\<close>

fun split_sep :: "char \<Rightarrow> string \<Rightarrow> string list" where
  "split_sep sep [] = [] # []"
| "split_sep sep (c # cs) =
     (if c = sep then [] # split_sep sep cs
      else (case split_sep sep cs of
              [] \<Rightarrow> [c] # []
            | t # ts \<Rightarrow> (c # t) # ts))"

text \<open>\<open>s.split()\<close>: the maximal runs of non-whitespace characters.\<close>

fun split_by :: "(char \<Rightarrow> bool) \<Rightarrow> string \<Rightarrow> string list" where
  "split_by P [] = [] # []"
| "split_by P (c # cs) =
     (if P c then [] # split_by P cs
      else (case split_by P cs of
              [] \<Rightarrow> [c] # []
            | t # ts \<Rightarrow> (c # t) # ts))"

definition split_ws :: "string \<Rightarrow> string list" where
  "split_ws s = filter (\<lambda>t. t \<noteq> []) (split_by is_space s)"

text \<open>\<open>s.count(c)\<close> and \<open>s.rfind(c)\<close> for a single character \<open>c\<close>; \<open>rfind\<close> is -1 when absent.\<close>

definition count_char :: "char \<Rightarrow> string \<Rightarrow> nat" where
  "count_char c s = length (filter (\<lambda>x. x = c) s)"

definition rfind :: "char \<Rightarrow> string \<Rightarrow> int" where
  "rfind c s = (if c \<in> set s
     then int (length s) - 1 - int (length (takeWhile (\<lambda>x. x \<noteq> c) (rev s)))
     else - 1)"

text \<open>\<open>s[i:j]\<close> for \<open>0 \<le> i\<close> and \<open>0 \<le> j\<close>.\<close>

definition slice :: "string \<Rightarrow> nat \<Rightarrow> nat \<Rightarrow> string" where
  "slice s i j = take (j - i) (drop i s)"

text \<open>\<open>phrase in text\<close>: the phrase starts at some position of the text.\<close>

fun str_contains :: "string \<Rightarrow> string \<Rightarrow> bool" where
  "str_contains [] p = (p = [])"
| "str_contains (c # cs) p = (prefix p (c # cs) \<or> str_contains cs p)"

section \<open>The standard library, as far as rules.py uses it\<close>

text \<open>
  A compiled pattern is determined by its source and its flags; the only flag rules.py ever
  sets is \<open>re.IGNORECASE\<close>. The attribute \<open>.pattern\<close> of the Python object is the source.
\<close>

datatype re_Pattern = Pattern (pattern: string) (ignorecase: bool)

text \<open>
  \<open>re.compile\<close> either returns a pattern, or raises \<open>re.error\<close>, or raises another exception
  (CPython raises \<open>OverflowError\<close> for a repetition count that is too large and
  \<open>RecursionError\<close> for nesting that is too deep; neither is a subclass of \<open>re.error\<close>).
\<close>

datatype compile_result = Compiled | Re_error | Other_error

text \<open>
  The regular expression engine, \<open>difflib.SequenceMatcher(None, a, b).ratio()\<close> and the
  multiplication of floats are not code of this repository: the model takes them as
  parameters. A float is modelled by the rational number it denotes.
\<close>

record pylib =
  re_compile :: "string \<Rightarrow> bool \<Rightarrow> compile_result"
  re_search :: "re_Pattern \<Rightarrow> string \<Rightarrow> bool"
  seq_ratio :: "string \<Rightarrow> string \<Rightarrow> rat"
  float_mul :: "rat \<Rightarrow> rat \<Rightarrow> rat"

text \<open>\<open>round(x)\<close> of a float: the nearest integer, a tie going to the even one.\<close>

definition py_round :: "rat \<Rightarrow> int" where
  "py_round x = (let f = \<lfloor>x\<rfloor>; d = x - of_int f in
     if d < 1 / 2 then f
     else if 1 / 2 < d then f + 1
     else if even f then f else f + 1)"

text \<open>
  The exceptions that leave the functions of rules.py: one that \<open>re.compile\<close> raised and
  \<open>except re.error\<close> did not catch, and the \<open>TypeError\<close> of subscripting \<open>None\<close>.
\<close>

datatype error = CompileError | TypeError

section \<open>rules.py: tunable weights\<close>

definition KW_WORD_POINTS :: int where "KW_WORD_POINTS = 12"
definition KW_REGEX_POINTS :: int where "KW_REGEX_POINTS = 14"
definition EXACT_MATCH_BONUS :: int where "EXACT_MATCH_BONUS = 40"
definition PRIORITY_WEIGHT :: int where "PRIORITY_WEIGHT = 2"
definition SIMILARITY_WEIGHT :: rat where "SIMILARITY_WEIGHT = 30"

text \<open>The literal \<open>0.55\<close> denotes the double nearest to 55/100.\<close>

definition SIMILARITY_MIN_FOR_MATCH :: rat where
  "SIMILARITY_MIN_FOR_MATCH = 2476979795053773 / 4503599627370496"

section \<open>rules.py: parse_keywords\<close>

text \<open>One iteration of the loop over \<open>keywords.split(",")\<close>, on the two lists built so far.\<close>

definition parse_token ::
  "pylib \<Rightarrow> string \<Rightarrow> string list \<times> re_Pattern list \<Rightarrow> error + string list \<times> re_Pattern list" where
  "parse_token lib raw acc =
     (let plain = fst acc; patterns = snd acc; kw = strip raw in
      if kw = [] then Inr (plain, patterns)
      else if prefix ''re:'' kw then
        (let pat = strip (drop 3 kw) in
         case re_compile lib pat True of
           Compiled \<Rightarrow> Inr (plain, patterns @ [Pattern pat True])
         | Re_error \<Rightarrow> Inr (plain, patterns)
         | Other_error \<Rightarrow> Inl CompileError)
      else if 2 \<le> length kw \<and> prefix ''/'' kw \<and> 2 \<le> count_char CHR ''/'' kw then
        (let last = nat (rfind CHR ''/'' kw);
             pat = slice kw 1 last;
             flags_str = lower (drop (last + 1) kw);
             flags = (CHR ''i'' \<in> set flags_str) in
         case re_compile lib pat flags of
           Compiled \<Rightarrow> Inr (plain, patterns @ [Pattern pat flags])
         | Re_error \<Rightarrow> Inr (plain, patterns)
         | Other_error \<Rightarrow> Inl CompileError)
      else Inr (plain @ [lower kw], patterns))"

fun parse_tokens ::
  "pylib \<Rightarrow> string list \<Rightarrow> string list \<times> re_Pattern list \<Rightarrow> error + string list \<times> re_Pattern list" where
  "parse_tokens lib [] acc = Inr acc"
| "parse_tokens lib (raw # raws) acc =
     (case parse_token lib raw acc of
        Inl e \<Rightarrow> Inl e
      | Inr acc' \<Rightarrow> parse_tokens lib raws acc')"

definition parse_keywords ::
  "pylib \<Rightarrow> string option \<Rightarrow> error + string list \<times> re_Pattern list" where
  "parse_keywords lib keywords =
     (case keywords of
        None \<Rightarrow> Inr ([], [])
      | Some s \<Rightarrow> if s = [] then Inr ([], [])
                  else parse_tokens lib (split_sep CHR '','' s) ([], []))"

section \<open>rules.py: phrase_in_text\<close>

text \<open>
  \<open>re.search(rf"\b{re.escape(phrase)}\b", text)\<close>: the pattern is a word boundary, the
  phrase taken literally, a word boundary. \<open>\b\<close> holds between two positions when exactly
  one of the characters on its two sides is a \<open>\w\<close> character, the outside of the string
  counting as not \<open>\w\<close>.
\<close>

fun is_word_opt :: "char option \<Rightarrow> bool" where
  "is_word_opt None = False"
| "is_word_opt (Some c) = is_word c"

definition is_boundary :: "char option \<Rightarrow> char option \<Rightarrow> bool" where
  "is_boundary a b = (is_word_opt a \<noteq> is_word_opt b)"

fun hd_opt :: "string \<Rightarrow> char option" where
  "hd_opt [] = None"
| "hd_opt (c # cs) = Some c"

definition last_opt :: "char option \<Rightarrow> string \<Rightarrow> char option" where
  "last_opt prev s = (if s = [] then prev else Some (last s))"

text \<open>A match of the pattern that starts here, \<open>prev\<close> being the character before.\<close>

definition match_here :: "char option \<Rightarrow> string \<Rightarrow> string \<Rightarrow> bool" where
  "match_here prev p s =
     (is_boundary prev (hd_opt s) \<and> prefix p s
      \<and> is_boundary (last_opt prev p) (hd_opt (drop (length p) s)))"

fun search_from :: "char option \<Rightarrow> string \<Rightarrow> string \<Rightarrow> bool" where
  "search_from prev p [] = match_here prev p []"
| "search_from prev p (c # cs) = (match_here prev p (c # cs) \<or> search_from (Some c) p cs)"

definition word_search :: "string \<Rightarrow> string \<Rightarrow> bool" where
  "word_search phrase text = search_from None phrase text"

definition phrase_in_text :: "string \<Rightarrow> string \<Rightarrow> bool" where
  "phrase_in_text text phrase =
     (if phrase = [] then False
      else let toks = split_ws phrase in
        if length toks = 1 then word_search phrase text
        else str_contains text phrase)"


text \<open>
  The spec's words for a single-token phrase, "occurs in the text as a whole word": the
  phrase occurs at a place where the character before it, if there is one, is not a word
  character, and neither is the character after it, if there is one.
\<close>

definition whole_word_in :: "string \<Rightarrow> string \<Rightarrow> bool" where
  "whole_word_in t p =
     (\<exists>pre post. t = pre @ p @ post
        \<and> (pre = [] \<or> \<not> is_word (last pre))
        \<and> (post = [] \<or> \<not> is_word (hd post)))"

section \<open>db.py: the rows and the two queries that rules.py uses\<close>

text \<open>
  A row of table \<open>qna\<close> (\<open>qid\<close> is the column \<open>id\<close> and \<open>keywords_str\<close> the column
  \<open>keywords\<close>; the keywords and the priority may be NULL)
  and the columns of table \<open>bots\<close> that \<open>match_rule\<close> reads (\<open>b_id\<close> is the column \<open>id\<close>).
\<close>

record qna_row =
  qid :: int
  bot_id :: int
  question :: string
  answer :: string
  keywords_str :: "string option"
  priority :: "int option"

record bot =
  b_id :: int
  slug :: string
  fallback_message :: string

record storage =
  bots :: "bot list"
  qna :: "qna_row list"

text \<open>\<open>SELECT ... FROM bots WHERE slug = ?\<close> with \<open>fetchone()\<close>.\<close>

definition fetch_bot_by_slug :: "storage \<Rightarrow> string \<Rightarrow> bot option" where
  "fetch_bot_by_slug db s = find (\<lambda>b. slug b = s) (bots db)"

text \<open>
  \<open>SELECT ... FROM qna WHERE bot_id = ? ORDER BY priority DESC, id ASC\<close>. In SQLite NULL
  is smaller than every integer, so under \<open>DESC\<close> the rows with a NULL priority come last.
\<close>

definition order_key :: "qna_row \<Rightarrow> int \<times> int \<times> int" where
  "order_key r = (case priority r of None \<Rightarrow> (1, 0, qid r) | Some p \<Rightarrow> (0, - p, qid r))"

definition fetch_qna :: "storage \<Rightarrow> int \<Rightarrow> qna_row list" where
  "fetch_qna db b = sort_key order_key (filter (\<lambda>r. bot_id r = b) (qna db))"

section \<open>rules.py: score_qna\<close>

record ScoreDetail =
  matched_keywords :: "string list"
  matched_regex :: "string list"
  exact :: bool
  ratio :: rat
  d_priority :: int

text \<open>The bodies of the two loops, on the pair of the score and the list built so far.\<close>

definition kw_step :: "string \<Rightarrow> int \<times> string list \<Rightarrow> string \<Rightarrow> int \<times> string list" where
  "kw_step user_norm st kw =
     (if phrase_in_text user_norm kw then (fst st + KW_WORD_POINTS, snd st @ [kw]) else st)"

definition re_step :: "pylib \<Rightarrow> string \<Rightarrow> int \<times> string list \<Rightarrow> re_Pattern \<Rightarrow> int \<times> string list" where
  "re_step lib user_norm st pat =
     (if re_search lib pat user_norm then (fst st + KW_REGEX_POINTS, snd st @ [pattern pat]) else st)"

definition score_qna :: "pylib \<Rightarrow> string \<Rightarrow> qna_row \<Rightarrow> error + int \<times> ScoreDetail" where
  "score_qna lib user_norm row =
     (let prio = (case priority row of None \<Rightarrow> 0 | Some p \<Rightarrow> p);
          q_norm = normalize_text (question row);
          is_exact = (user_norm = q_norm);
          score0 = (if is_exact then EXACT_MATCH_BONUS else 0)
      in case parse_keywords lib (keywords_str row) of
           Inl e \<Rightarrow> Inl e
         | Inr parsed \<Rightarrow>
             (let st1 = foldl (kw_step user_norm) (score0, []) (fst parsed);
                  st2 = foldl (re_step lib user_norm) (fst st1, []) (snd parsed);
                  r = seq_ratio lib user_norm q_norm;
                  score3 = fst st2 + py_round (float_mul lib SIMILARITY_WEIGHT r);
                  score4 = score3 + prio * PRIORITY_WEIGHT
              in Inr (score4,
                      \<lparr>matched_keywords = snd st1, matched_regex = snd st2,
                       exact = is_exact, ratio = r, d_priority = prio\<rparr>)))"

section \<open>rules.py: match_rule\<close>

text \<open>
  The result dictionary. \<open>r_answer\<close> and \<open>r_question\<close> are the keys \<open>answer\<close> and \<open>question\<close>.
  The key \<open>debug\<close> is absent (\<open>None\<close>), present with the value \<open>None\<close> (\<open>Some None\<close>), or
  present with a score detail.
\<close>

record MatchResult =
  matched :: bool
  r_answer :: string
  r_question :: "string option"
  qna_id :: "int option"
  confidence :: int
  debug :: "ScoreDetail option option"

text \<open>
  The loop over the rows, on \<open>best_score\<close> and the pair of \<open>best_row\<close> and \<open>best_details\<close>
  (both \<open>None\<close> until the first assignment). The \<open>print\<close> under \<open>DEBUG\<close> is not modelled.
\<close>

fun best_loop ::
  "pylib \<Rightarrow> string \<Rightarrow> qna_row list \<Rightarrow> int \<times> (qna_row \<times> ScoreDetail) option
     \<Rightarrow> error + int \<times> (qna_row \<times> ScoreDetail) option" where
  "best_loop lib user_norm [] st = Inr st"
| "best_loop lib user_norm (row # rows) st =
     (case score_qna lib user_norm row of
        Inl e \<Rightarrow> Inl e
      | Inr sd \<Rightarrow>
          best_loop lib user_norm rows
            (if fst st < fst sd then (fst sd, Some (row, snd sd)) else st))"

definition initial_best :: "int \<times> (qna_row \<times> ScoreDetail) option" where
  "initial_best = (- (10 ^ 9), None)"

definition is_match :: "ScoreDetail \<Rightarrow> bool" where
  "is_match best_details =
     (let kw_hits = length (matched_keywords best_details) + length (matched_regex best_details)
      in exact best_details \<or> 0 < kw_hits \<or> SIMILARITY_MIN_FOR_MATCH \<le> ratio best_details)"

definition match_rule :: "pylib \<Rightarrow> storage \<Rightarrow> bool \<Rightarrow> string \<Rightarrow> string \<Rightarrow> error + MatchResult" where
  "match_rule lib db DEBUG bot_slug user_message =
     (case fetch_bot_by_slug db bot_slug of
        None \<Rightarrow>
          Inr \<lparr>matched = False, r_answer = ''Bot not found.'', r_question = None,
               qna_id = None, confidence = 0, debug = None\<rparr>
      | Some b \<Rightarrow>
          (let user_norm = normalize_text user_message;
               qnas = fetch_qna db (b_id b)
           in if qnas = [] then
                Inr \<lparr>matched = False, r_answer = fallback_message b, r_question = None,
                     qna_id = None, confidence = 0, debug = None\<rparr>
              else
                (case best_loop lib user_norm qnas initial_best of
                   Inl e \<Rightarrow> Inl e
                 | Inr (best_score, None) \<Rightarrow> Inl TypeError
                 | Inr (best_score, Some (best_row, best_details)) \<Rightarrow>
                     if \<not> is_match best_details then
                       Inr \<lparr>matched = False, r_answer = fallback_message b, r_question = None,
                            qna_id = None, confidence = max 0 best_score,
                            debug = Some (if DEBUG then Some best_details else None)\<rparr>
                     else
                       Inr \<lparr>matched = True, r_answer = answer best_row,
                            r_question = Some (question best_row),
                            qna_id = Some (qid best_row), confidence = max 0 best_score,
                            debug = (if DEBUG then Some (Some best_details) else None)\<rparr>)))"

section \<open>Values for the examples\<close>

text \<open>
  A library value that agrees with CPython on the arguments at which the examples below
  evaluate it: \<open>re.compile("(")\<close> raises \<open>re.error\<close> (missing parenthesis),
  \<open>re.compile("a{99999999999}")\<close> raises \<open>OverflowError\<close> (the repetition number is too
  large), a pattern of letters compiles and is searched as a literal; the ratio of two equal
  strings is 1.0, that of "abcx" and "abcd" is 0.75 (three matching characters of eight),
  that of "ac" and "ab" is 0.5 (one of four), and that of two strings with no common
  character is 0.0; the products 30 * 1.0, 30 * 0.75, 30 * 0.5 and 30 * 0.0 are exact.
\<close>

definition example_lib :: pylib where
  "example_lib =
     \<lparr>re_compile = (\<lambda>p ic. if p = ''('' then Re_error
                           else if p = ''a{99999999999}'' then Other_error else Compiled),
      re_search = (\<lambda>pat t. if ignorecase pat then str_contains (lower t) (lower (pattern pat))
                           else str_contains t (pattern pat)),
      seq_ratio = (\<lambda>a b. if a = b then 1
                         else if a = ''abcx'' \<and> b = ''abcd'' then 3 / 4
                         else if a = ''ac'' \<and> b = ''ab'' then 1 / 2
                         else 0),
      float_mul = (\<lambda>x y. x * y)\<rparr>"

definition example_row :: "int \<Rightarrow> string \<Rightarrow> string option \<Rightarrow> int option \<Rightarrow> qna_row" where
  "example_row i q k p =
     \<lparr>qid = i, bot_id = 1, question = q, answer = ''answer'', keywords_str = k, priority = p\<rparr>"

definition example_bot :: bot where
  "example_bot = \<lparr>b_id = 1, slug = ''cafe'', fallback_message = ''fallback''\<rparr>"

definition example_db :: "qna_row list \<Rightarrow> storage" where
  "example_db rows = \<lparr>bots = [example_bot], qna = rows\<rparr>"

section \<open>Properties of normalize_text\<close>

lemma is_space_space: "is_space CHR '' ''"
  by (simp add: is_space_def)

lemma is_lower_alnum_iff:
  "is_lower_alnum c \<longleftrightarrow> c \<in> set ''abcdefghijklmnopqrstuvwxyz0123456789''"
  by (cases c) (simp add: is_lower_alnum_def)

lemma sub_runs_set: "set (sub_runs P s) \<subseteq> insert CHR '' '' {c \<in> set s. \<not> P c}"
proof (induction P s rule: sub_runs.induct)
  case (1 P)
  then show ?case by simp
next
  case (2 P c cs)
  show ?case
  proof (cases "P c")
    case True
    with 2 have "set (sub_runs P (dropWhile P cs)) \<subseteq> insert CHR '' '' {x \<in> set (dropWhile P cs). \<not> P x}"
      by simp
    moreover have "set (dropWhile P cs) \<subseteq> set cs" by (auto dest: set_dropWhileD)
    ultimately show ?thesis using True by auto
  next
    case False
    with 2 show ?thesis by auto
  qed
qed

lemma sub_runs_hd:
  "s \<noteq> [] \<Longrightarrow> \<not> P (hd s) \<Longrightarrow> sub_runs P s \<noteq> [] \<and> hd (sub_runs P s) = hd s"
  by (cases s) auto

lemma sub_runs_no_double:
  "P CHR '' '' \<Longrightarrow> \<not> sublist ''  '' (sub_runs P s)"
proof (induction P s rule: sub_runs.induct)
  case (1 P)
  then show ?case by simp
next
  case (2 P c cs)
  note sp = \<open>P CHR '' ''\<close>
  show ?case
  proof (cases "P c")
    case True
    let ?d = "dropWhile P cs"
    have ih: "\<not> sublist ''  '' (sub_runs P ?d)" using 2(1)[OF True sp] .
    have "\<not> prefix ''  '' (CHR '' '' # sub_runs P ?d)"
    proof (cases ?d)
      case Nil
      have "sub_runs P [] = []" by simp
      then show ?thesis unfolding Nil by simp
    next
      case (Cons e es)
      then have "\<not> P e" using hd_dropWhile[of P cs] by auto
      then have "e \<noteq> CHR '' ''" using sp by auto
      have "sub_runs P (e # es) = e # sub_runs P es" using \<open>\<not> P e\<close> by simp
      then show ?thesis unfolding Cons using \<open>e \<noteq> CHR '' ''\<close> by simp
    qed
    with ih True show ?thesis by (simp add: sublist_Cons_right)
  next
    case False
    then have "c \<noteq> CHR '' ''" using sp by auto
    moreover have "\<not> sublist ''  '' (sub_runs P cs)" using 2(2)[OF False sp] .
    ultimately show ?thesis using False by (simp add: sublist_Cons_right)
  qed
qed

lemma normalize_text_chars:
  "c \<in> set (normalize_text x) \<Longrightarrow> c = CHR '' '' \<or> is_lower_alnum c"
proof -
  assume a: "c \<in> set (normalize_text x)"
  let ?t1 = "lower (strip x)"
  let ?t2 = "sub_runs strip_chars_class ?t1"
  from a have "c \<in> set (sub_runs is_space ?t2)" by (simp add: normalize_text_def)
  then have "c = CHR '' '' \<or> (c \<in> set ?t2 \<and> \<not> is_space c)"
    using sub_runs_set[of is_space ?t2] by auto
  moreover have "c \<in> set ?t2 \<Longrightarrow> c = CHR '' '' \<or> \<not> strip_chars_class c"
    using sub_runs_set[of strip_chars_class ?t1] by auto
  ultimately show ?thesis by (auto simp: strip_chars_class_def)
qed

lemma normalize_text_no_double: "\<not> sublist ''  '' (normalize_text x)"
  unfolding normalize_text_def Let_def by (rule sub_runs_no_double[of is_space, OF is_space_space])

text \<open>
  Claim C10. For every input string, the output of \<open>normalize_text\<close> contains only lowercase
  ASCII letters, digits and spaces, and never contains two consecutive spaces.
\<close>

theorem normalize_text_output_alphabet:
  "set (normalize_text x) \<subseteq> set ''abcdefghijklmnopqrstuvwxyz0123456789 ''
   \<and> \<not> sublist ''  '' (normalize_text x)"
proof
  show "set (normalize_text x) \<subseteq> set ''abcdefghijklmnopqrstuvwxyz0123456789 ''"
  proof
    fix c assume "c \<in> set (normalize_text x)"
    then have "c = CHR '' '' \<or> is_lower_alnum c" by (rule normalize_text_chars)
    then show "c \<in> set ''abcdefghijklmnopqrstuvwxyz0123456789 ''"
      using is_lower_alnum_iff[of c] by auto
  qed
  show "\<not> sublist ''  '' (normalize_text x)" by (rule normalize_text_no_double)
qed

theorem normalize_text_output_alphabet_witness:
  "normalize_text ''Hi,  You!'' = ''hi you ''
   \<and> set (normalize_text ''Hi,  You!'') \<subseteq> set ''abcdefghijklmnopqrstuvwxyz0123456789 ''
   \<and> \<not> sublist ''  '' (normalize_text ''Hi,  You!'')"
proof -
  have "normalize_text ''Hi,  You!'' = ''hi you ''" by code_simp
  then show ?thesis using normalize_text_output_alphabet[of "''Hi,  You!''"] by simp
qed

text \<open>
  Claim C3 says that \<open>normalize_text\<close> is idempotent and that its output has no leading or
  trailing whitespace. The code strips the text before it replaces punctuation by spaces, so
  a text that ends in punctuation is normalised to a text that ends in a space, and
  normalising that once more removes the space: on \<open>"a!"\<close> the output is \<open>"a "\<close>, and
  the output of the output is \<open>"a"\<close>.
\<close>

theorem normalize_text_not_idempotent:
  "normalize_text ''a!'' = ''a '' \<and> normalize_text (normalize_text ''a!'') = ''a''"
  by code_simp

section \<open>Properties of phrase_in_text\<close>

lemma hd_opt_append: "p \<noteq> [] \<Longrightarrow> hd_opt (p @ post) = Some (hd p)"
  by (cases p) auto

lemma search_from_iff:
  "search_from prev p t \<longleftrightarrow>
     (\<exists>pre post. t = pre @ p @ post
        \<and> is_boundary (last_opt prev pre) (hd_opt (p @ post))
        \<and> is_boundary (last_opt (last_opt prev pre) p) (hd_opt post))"
proof (induction t arbitrary: prev)
  case Nil
  then show ?case by (auto simp: match_here_def last_opt_def)
next
  case (Cons c cs)
  have here: "match_here prev p (c # cs) \<longleftrightarrow>
     (\<exists>post. c # cs = p @ post
        \<and> is_boundary prev (hd_opt (p @ post))
        \<and> is_boundary (last_opt prev p) (hd_opt post))"
  proof -
    have "hd_opt (p @ post) = Some c \<and> drop (length p) (c # cs) = post"
      if "c # cs = p @ post" for post
      using that by (metis hd_opt.simps(2) append_eq_conv_conj)
    then show ?thesis unfolding match_here_def prefix_def by auto
  qed
  have later: "search_from (Some c) p cs \<longleftrightarrow>
     (\<exists>pre post. c # cs = (c # pre) @ p @ post
        \<and> is_boundary (last_opt prev (c # pre)) (hd_opt (p @ post))
        \<and> is_boundary (last_opt (last_opt prev (c # pre)) p) (hd_opt post))"
    unfolding Cons.IH by (simp add: last_opt_def)
  show ?case (is "?L = ?R")
  proof
    assume ?L
    then consider "match_here prev p (c # cs)" | "search_from (Some c) p cs" by auto
    then show ?R
    proof cases
      case 1
      then obtain post where "c # cs = p @ post" "is_boundary prev (hd_opt (p @ post))"
        "is_boundary (last_opt prev p) (hd_opt post)" using here by blast
      then have "c # cs = [] @ p @ post \<and> is_boundary (last_opt prev []) (hd_opt (p @ post))
        \<and> is_boundary (last_opt (last_opt prev []) p) (hd_opt post)"
        by (simp add: last_opt_def)
      then show ?thesis by blast
    next
      case 2
      then show ?thesis using later by blast
    qed
  next
    assume ?R
    then obtain pre post where r: "c # cs = pre @ p @ post"
      "is_boundary (last_opt prev pre) (hd_opt (p @ post))"
      "is_boundary (last_opt (last_opt prev pre) p) (hd_opt post)" by blast
    show ?L
    proof (cases pre)
      case Nil
      with r have "match_here prev p (c # cs)" unfolding here by (auto simp: last_opt_def)
      then show ?thesis by simp
    next
      case (Cons d ds)
      with r have "d = c" by simp
      with r Cons have "search_from (Some c) p cs" unfolding later by blast
      then show ?thesis by simp
    qed
  qed
qed

lemma split_by_pieces_all: "\<forall>t \<in> set (split_by P s). \<forall>c \<in> set t. \<not> P c"
  by (induction s) (auto split: list.splits)

lemma split_by_pieces: "t \<in> set (split_by P s) \<Longrightarrow> c \<in> set t \<Longrightarrow> \<not> P c"
  using split_by_pieces_all by blast

lemma single_token:
  assumes "split_ws p = [p]"
  shows "p \<noteq> []" and "\<And>c. c \<in> set p \<Longrightarrow> \<not> is_space c"
proof -
  have m: "p \<in> set (split_ws p)" using assms by simp
  then show "p \<noteq> []" by (simp add: split_ws_def)
  fix c assume "c \<in> set p"
  moreover from m have "p \<in> set (split_by is_space p)" by (simp add: split_ws_def)
  ultimately show "\<not> is_space c" by (rule split_by_pieces[rotated])
qed

lemma lower_alnum_is_word: "is_lower_alnum c \<Longrightarrow> is_word c"
  by (auto simp: is_lower_alnum_def is_word_def Let_def)

lemma space_not_word: "\<not> is_word CHR '' ''"
  by (simp add: is_word_def)

lemma str_contains_sublist: "str_contains t p \<longleftrightarrow> sublist p t"
  by (induction t) (auto simp: sublist_Cons_right)


lemma is_word_opt_last_opt:
  "is_word_opt (last_opt None pre) \<longleftrightarrow> pre \<noteq> [] \<and> is_word (last pre)"
  by (simp add: last_opt_def)

lemma is_word_opt_hd_opt:
  "is_word_opt (hd_opt post) \<longleftrightarrow> post \<noteq> [] \<and> is_word (hd post)"
  by (cases post) auto

lemma word_search_token:
  assumes tok: "split_ws p = [p]"
    and chars: "\<And>c. c \<in> set t \<Longrightarrow> c = CHR '' '' \<or> is_lower_alnum c"
  shows "word_search p t = whole_word_in t p"
proof -
  have ne: "p \<noteq> []" using single_token(1)[OF tok] .
  have bounds: "(is_boundary (last_opt None pre) (hd_opt (p @ post))
        \<and> is_boundary (last_opt (last_opt None pre) p) (hd_opt post))
      \<longleftrightarrow> ((pre = [] \<or> \<not> is_word (last pre)) \<and> (post = [] \<or> \<not> is_word (hd post)))"
    if t: "t = pre @ p @ post" for pre post
  proof -
    have w: "is_word c" if "c \<in> set p" for c
    proof -
      have "c \<in> set t" using that t by simp
      moreover have "\<not> is_space c" using single_token(2)[OF tok that] .
      ultimately have "is_lower_alnum c" using chars is_space_space by auto
      then show ?thesis by (rule lower_alnum_is_word)
    qed
    have "is_word (hd p)" "is_word (last p)" using ne w by simp_all
    then show ?thesis
      using ne by (simp add: is_boundary_def hd_opt_append is_word_opt_last_opt
          is_word_opt_hd_opt last_opt_def[of _ p])
  qed
  show ?thesis
    unfolding word_search_def search_from_iff whole_word_in_def using bounds by blast
qed

lemma split_ws_Nil: "split_ws [] = []"
  by (simp add: split_ws_def)

text \<open>
  Claim C6. For a normalised text and a phrase that is a single token, \<open>phrase_in_text\<close> holds
  exactly when the phrase occurs in the text as a whole word; "cat" does not match inside
  "category" and matches inside "i have a cat". For a phrase of several tokens it holds
  exactly when the phrase is a contiguous part of the text (\<open>sublist\<close>).
\<close>

theorem phrase_in_text_spec:
  "(split_ws p = [p] \<longrightarrow>
      phrase_in_text (normalize_text x) p = whole_word_in (normalize_text x) p)
   \<and> (2 \<le> length (split_ws q) \<longrightarrow> phrase_in_text t q = sublist q t)
   \<and> \<not> phrase_in_text ''category'' ''cat''
   \<and> phrase_in_text ''i have a cat'' ''cat''"
proof (intro conjI impI)
  assume tok: "split_ws p = [p]"
  then have "p \<noteq> []" by (rule single_token(1))
  moreover have "word_search p (normalize_text x) = whole_word_in (normalize_text x) p"
    using tok normalize_text_chars by (rule word_search_token)
  ultimately show "phrase_in_text (normalize_text x) p = whole_word_in (normalize_text x) p"
    using tok by (simp add: phrase_in_text_def)
next
  assume two: "2 \<le> length (split_ws q)"
  then have "q \<noteq> []" using split_ws_Nil by auto
  with two show "phrase_in_text t q = sublist q t"
    by (simp add: phrase_in_text_def str_contains_sublist)
next
  show "\<not> phrase_in_text ''category'' ''cat''" by code_simp
next
  show "phrase_in_text ''i have a cat'' ''cat''" by code_simp
qed

theorem phrase_in_text_spec_witness:
  "split_ws ''cat'' = [''cat'']
   \<and> normalize_text ''I have a cat.'' = ''i have a cat ''
   \<and> whole_word_in ''i have a cat '' ''cat''
   \<and> 2 \<le> length (split_ws ''free wifi'')
   \<and> sublist ''free wifi'' ''is there free wifi here''"
proof -
  have h1: "split_ws ''cat'' = [''cat'']" by code_simp
  have n: "normalize_text ''I have a cat.'' = ''i have a cat ''" by code_simp
  have e1: "phrase_in_text ''i have a cat '' ''cat''" by code_simp
  have h2: "2 \<le> length (split_ws ''free wifi'')" by code_simp
  have e2: "phrase_in_text ''is there free wifi here'' ''free wifi''" by code_simp
  show ?thesis
    using phrase_in_text_spec[of "''cat''" "''I have a cat.''" "''free wifi''"
        "''is there free wifi here''"] h1 n e1 h2 e2
    by simp
qed

section \<open>Properties of parse_keywords and score_qna\<close>

lemma foldl_kw_step:
  "foldl (kw_step u) (s, m) plain =
     (s + KW_WORD_POINTS * int (length (filter (phrase_in_text u) plain)),
      m @ filter (phrase_in_text u) plain)"
  by (induction plain arbitrary: s m) (simp_all add: kw_step_def algebra_simps)

lemma foldl_re_step:
  "foldl (re_step lib u) (s, m) patterns =
     (s + KW_REGEX_POINTS * int (length (filter (\<lambda>p. re_search lib p u) patterns)),
      m @ map pattern (filter (\<lambda>p. re_search lib p u) patterns))"
  by (induction patterns arbitrary: s m) (simp_all add: re_step_def algebra_simps)

lemma score_qna_value:
  assumes "parse_keywords lib (keywords_str row) = Inr (plain, patterns)"
  shows "score_qna lib u row =
     Inr ((if u = normalize_text (question row) then 40 else 0)
          + 12 * int (length (filter (phrase_in_text u) plain))
          + 14 * int (length (filter (\<lambda>p. re_search lib p u) patterns))
          + py_round (float_mul lib 30 (seq_ratio lib u (normalize_text (question row))))
          + 2 * (case priority row of None \<Rightarrow> 0 | Some p \<Rightarrow> p),
          \<lparr>matched_keywords = filter (phrase_in_text u) plain,
           matched_regex = map pattern (filter (\<lambda>p. re_search lib p u) patterns),
           exact = (u = normalize_text (question row)),
           ratio = seq_ratio lib u (normalize_text (question row)),
           d_priority = (case priority row of None \<Rightarrow> 0 | Some p \<Rightarrow> p)\<rparr>)"
  using assms
  by (simp add: score_qna_def Let_def foldl_kw_step foldl_re_step KW_WORD_POINTS_def
      KW_REGEX_POINTS_def EXACT_MATCH_BONUS_def PRIORITY_WEIGHT_def SIMILARITY_WEIGHT_def)

text \<open>
  Claim C1. The score that \<open>score_qna\<close> returns is the sum of 40 when the user text equals
  the normalised question, 12 for each plain phrase of the parsed keywords that matches, 14
  for each compiled pattern that finds a match, the rounded product of 30 and the similarity
  ratio, and twice the priority; nothing else contributes. The priority is that of the row
  (0 for a row without one), and is the one recorded in the detail. The product is Python's
  float product and the rounding is Python's \<open>round\<close>.
\<close>

theorem score_qna_sum:
  assumes "parse_keywords lib (keywords_str row) = Inr (plain, patterns)"
  shows "\<exists>d. score_qna lib u row =
     Inr ((if u = normalize_text (question row) then 40 else 0)
          + 12 * int (length (filter (phrase_in_text u) plain))
          + 14 * int (length (filter (\<lambda>p. re_search lib p u) patterns))
          + py_round (float_mul lib 30 (seq_ratio lib u (normalize_text (question row))))
          + 2 * (case priority row of None \<Rightarrow> 0 | Some p \<Rightarrow> p), d)
     \<and> d_priority d = (case priority row of None \<Rightarrow> 0 | Some p \<Rightarrow> p)
     \<and> exact d = (u = normalize_text (question row))
     \<and> ratio d = seq_ratio lib u (normalize_text (question row))
     \<and> matched_keywords d = filter (phrase_in_text u) plain
     \<and> matched_regex d = map pattern (filter (\<lambda>p. re_search lib p u) patterns)"
  using score_qna_value[OF assms, of u] by simp

lemma example_parse:
  "parse_keywords example_lib (Some ''hours, Open ,re:('') = Inr ([''hours'', ''open''], [])"
  by code_simp

lemma example_normalize: "normalize_text ''What are your hours?'' = ''what are your hours ''"
  by code_simp

lemma example_filter:
  "filter (phrase_in_text ''what are your hours '') [''hours'', ''open''] = [''hours'']"
  by code_simp

lemma py_round_30: "py_round 30 = 30"
  by (simp add: py_round_def)

theorem score_qna_sum_witness:
  "parse_keywords example_lib
      (keywords_str (example_row 1 ''What are your hours?'' (Some ''hours, Open ,re:('') (Some 3)))
     = Inr ([''hours'', ''open''], [])
   \<and> (\<exists>d. score_qna example_lib ''what are your hours ''
          (example_row 1 ''What are your hours?'' (Some ''hours, Open ,re:('') (Some 3))
        = Inr (88, d) \<and> d_priority d = 3 \<and> exact d \<and> matched_keywords d = [''hours''])"
proof -
  let ?row = "example_row 1 ''What are your hours?'' (Some ''hours, Open ,re:('') (Some 3)"
  have h: "parse_keywords example_lib (keywords_str ?row) = Inr ([''hours'', ''open''], [])"
    using example_parse by (simp add: example_row_def)
  have q: "normalize_text (question ?row) = ''what are your hours ''"
    using example_normalize by (simp add: example_row_def)
  have pr: "priority ?row = Some 3" by (simp add: example_row_def)
  obtain d where d: "score_qna example_lib ''what are your hours '' ?row =
     Inr ((if ''what are your hours '' = normalize_text (question ?row) then 40 else 0)
          + 12 * int (length (filter (phrase_in_text ''what are your hours '') [''hours'', ''open'']))
          + 14 * int (length (filter (\<lambda>p. re_search example_lib p ''what are your hours '') []))
          + py_round (float_mul example_lib 30
               (seq_ratio example_lib ''what are your hours '' (normalize_text (question ?row))))
          + 2 * (case priority ?row of None \<Rightarrow> 0 | Some p \<Rightarrow> p), d)"
    and p: "d_priority d = (case priority ?row of None \<Rightarrow> 0 | Some p \<Rightarrow> p)"
    and e: "exact d = (''what are your hours '' = normalize_text (question ?row))"
    and k: "matched_keywords d = filter (phrase_in_text ''what are your hours '') [''hours'', ''open'']"
    using score_qna_sum[OF h, of "''what are your hours ''"] by blast
  have "score_qna example_lib ''what are your hours '' ?row = Inr (88, d)"
    using d unfolding q pr example_filter by (simp add: example_lib_def py_round_30)
  with h p pr e k q example_filter show ?thesis by auto
qed

text \<open>
  Claim C4 says that a row whose priority is NULL is scored as if its priority were 1. The
  code has an explicit default of its own, \<open>... if qna_row["priority"] is not None else 0\<close>:
  such a row is scored with priority 0, the priority adds 0 to the score, and the detail
  records 0. (The default 1 of the schema and of \<open>add_qna\<close> applies when a row is stored
  without a priority; the stored row then holds 1, not NULL.)
\<close>

theorem null_priority_counts_zero:
  assumes "priority row = None"
    and "parse_keywords lib (keywords_str row) = Inr (plain, patterns)"
  shows "\<exists>d. score_qna lib u row =
     Inr ((if u = normalize_text (question row) then 40 else 0)
          + 12 * int (length (filter (phrase_in_text u) plain))
          + 14 * int (length (filter (\<lambda>p. re_search lib p u) patterns))
          + py_round (float_mul lib 30 (seq_ratio lib u (normalize_text (question row))))
          + 0, d)
     \<and> d_priority d = 0"
  using score_qna_value[OF assms(2), of u] assms(1) by simp

text \<open>
  Claim C4 as stated fails: for the row with question "hours", no keywords and a NULL
  priority, and the user text "hours", the score is 40 + 30 + 0 = 70 (it would be 72 with
  priority 1) and the recorded priority is 0.
\<close>

theorem null_priority_counterexample:
  "score_qna example_lib ''hours'' (example_row 1 ''hours'' None None) =
     Inr (70, \<lparr>matched_keywords = [], matched_regex = [], exact = True, ratio = 1,
              d_priority = 0\<rparr>)"
  by code_simp

theorem null_priority_counts_zero_witness:
  "priority (example_row 1 ''hours'' None None) = None
   \<and> parse_keywords example_lib (keywords_str (example_row 1 ''hours'' None None)) = Inr ([], [])
   \<and> (\<exists>d. score_qna example_lib ''hours'' (example_row 1 ''hours'' None None) = Inr (70, d)
          \<and> d_priority d = 0)"
proof -
  let ?row = "example_row 1 ''hours'' None None"
  have h1: "priority ?row = None" by (simp add: example_row_def)
  have h2: "parse_keywords example_lib (keywords_str ?row) = Inr ([], [])"
    by (simp add: example_row_def parse_keywords_def)
  have n: "normalize_text (question ?row) = ''hours''" by code_simp
  show ?thesis
    using null_priority_counts_zero[OF h1 h2, of "''hours''"] h1 h2 n
    by (simp add: example_lib_def py_round_30)
qed

text \<open>
  A token whose pattern \<open>re.compile\<close> rejects with \<open>re.error\<close> leaves both lists as they
  were, for the two forms of a regex token.
\<close>

lemma re_token_dropped:
  assumes "prefix ''re:'' (strip raw)"
    and "re_compile lib (strip (drop 3 (strip raw))) True = Re_error"
  shows "parse_token lib raw acc = Inr acc"
  using assms by (auto simp: parse_token_def Let_def)

lemma slash_token_dropped:
  assumes "\<not> prefix ''re:'' (strip raw)" and "2 \<le> length (strip raw)"
    and "prefix ''/'' (strip raw)" and "2 \<le> count_char CHR ''/'' (strip raw)"
    and "re_compile lib (slice (strip raw) 1 (nat (rfind CHR ''/'' (strip raw))))
           (CHR ''i'' \<in> set (lower (drop (nat (rfind CHR ''/'' (strip raw)) + 1) (strip raw))))
         = Re_error"
  shows "parse_token lib raw acc = Inr acc"
  using assms by (auto simp: parse_token_def Let_def)

text \<open>
  Hence the keywords with such a token parse as the keywords without it: the same phrases
  and patterns, or the same exception from another token.
\<close>

lemma parse_token_empty: "parse_token lib [] acc = Inr acc"
  by (simp add: parse_token_def strip_def)

lemma parse_keywords_tokens:
  "parse_keywords lib (Some s) = parse_tokens lib (split_sep CHR '','' s) ([], [])"
  by (cases s) (simp_all add: parse_keywords_def parse_token_empty)

lemma parse_tokens_dropped:
  assumes "\<And>acc. parse_token lib tok acc = Inr acc"
  shows "parse_tokens lib (pre @ tok # post) acc = parse_tokens lib (pre @ post) acc"
  using assms by (induction pre arbitrary: acc) (simp_all split: sum.splits)

lemma rejected_token_removed:
  assumes "split_sep CHR '','' s = pre @ tok # post"
    and "split_sep CHR '','' s' = pre @ post"
    and "\<And>acc. parse_token lib tok acc = Inr acc"
  shows "parse_keywords lib (Some s) = parse_keywords lib (Some s')"
  using assms by (simp add: parse_keywords_tokens parse_tokens_dropped)

text \<open>
  Claim C8 says that a regex token whose pattern fails to compile is dropped and no error
  is raised. The code catches \<open>re.error\<close> only. The pattern \<open>a{99999999999}\<close> fails to
  compile with \<open>OverflowError\<close>, which is not caught: \<open>parse_keywords\<close> raises, where the
  keywords without that token parse to the phrase "wifi".
\<close>

theorem overflowing_regex_not_dropped:
  "parse_keywords example_lib (Some ''wifi,re:a{99999999999}'') = Inl CompileError
   \<and> parse_keywords example_lib (Some ''wifi'') = Inr ([''wifi''], [])"
  by code_simp

section \<open>Properties of match_rule\<close>

text \<open>
  The invariant of the loop of \<open>match_rule\<close>: no score exceeds the final best score, and the
  final best row is either the initial one or the first row whose score is the final best
  score.
\<close>

lemma best_loop_result:
  "best_loop lib u rows (bs0, b0) = Inr (bs, b) \<Longrightarrow>
     (\<forall>r \<in> set rows. \<exists>s d. score_qna lib u r = Inr (s, d) \<and> s \<le> bs) \<and> bs0 \<le> bs \<and>
     ((b = b0 \<and> bs = bs0) \<or>
      (\<exists>pre row det post. rows = pre @ row # post \<and> b = Some (row, det)
          \<and> score_qna lib u row = Inr (bs, det) \<and> bs0 < bs
          \<and> (\<forall>r \<in> set pre. \<exists>s d. score_qna lib u r = Inr (s, d) \<and> s < bs)))"
proof (induction rows arbitrary: bs0 b0)
  case Nil
  then show ?case by simp
next
  case (Cons r rows)
  from Cons.prems obtain s d where sd: "score_qna lib u r = Inr (s, d)"
    by (cases "score_qna lib u r") auto
  show ?case
  proof (cases "bs0 < s")
    case True
    with Cons.prems sd have run: "best_loop lib u rows (s, Some (r, d)) = Inr (bs, b)" by simp
    note ih = Cons.IH[OF run]
    from ih have all: "\<forall>x \<in> set rows. \<exists>s d. score_qna lib u x = Inr (s, d) \<and> s \<le> bs"
      and le: "s \<le> bs" by blast+
    from ih consider (same) "b = Some (r, d)" "bs = s"
      | (later) pre row det post where "rows = pre @ row # post" "b = Some (row, det)"
          "score_qna lib u row = Inr (bs, det)" "s < bs"
          "\<forall>x \<in> set pre. \<exists>s d. score_qna lib u x = Inr (s, d) \<and> s < bs"
      by blast
    then have "\<exists>pre row det post. r # rows = pre @ row # post \<and> b = Some (row, det)
          \<and> score_qna lib u row = Inr (bs, det) \<and> bs0 < bs
          \<and> (\<forall>x \<in> set pre. \<exists>s d. score_qna lib u x = Inr (s, d) \<and> s < bs)"
    proof cases
      case same
      then have "r # rows = [] @ r # rows \<and> b = Some (r, d)
          \<and> score_qna lib u r = Inr (bs, d) \<and> bs0 < bs
          \<and> (\<forall>x \<in> set []. \<exists>s d. score_qna lib u x = Inr (s, d) \<and> s < bs)"
        using sd True by simp
      then show ?thesis by blast
    next
      case later
      then have "r # rows = (r # pre) @ row # post \<and> b = Some (row, det)
          \<and> score_qna lib u row = Inr (bs, det) \<and> bs0 < bs
          \<and> (\<forall>x \<in> set (r # pre). \<exists>s d. score_qna lib u x = Inr (s, d) \<and> s < bs)"
        using sd True by auto
      then show ?thesis by blast
    qed
    moreover have "\<forall>x \<in> set (r # rows). \<exists>s d. score_qna lib u x = Inr (s, d) \<and> s \<le> bs"
      using all sd le by auto
    moreover have "bs0 \<le> bs" using True le by simp
    ultimately show ?thesis by blast
  next
    case False
    with Cons.prems sd have run: "best_loop lib u rows (bs0, b0) = Inr (bs, b)" by simp
    note ih = Cons.IH[OF run]
    from ih have all: "\<forall>x \<in> set rows. \<exists>s d. score_qna lib u x = Inr (s, d) \<and> s \<le> bs"
      and le: "bs0 \<le> bs" by blast+
    have here: "\<forall>x \<in> set (r # rows). \<exists>s d. score_qna lib u x = Inr (s, d) \<and> s \<le> bs"
      using all sd le False by auto
    from ih consider (same) "b = b0" "bs = bs0"
      | (later) pre row det post where "rows = pre @ row # post" "b = Some (row, det)"
          "score_qna lib u row = Inr (bs, det)" "bs0 < bs"
          "\<forall>x \<in> set pre. \<exists>s d. score_qna lib u x = Inr (s, d) \<and> s < bs"
      by blast
    then show ?thesis
    proof cases
      case same
      with here le show ?thesis by blast
    next
      case later
      then have "r # rows = (r # pre) @ row # post \<and> b = Some (row, det)
          \<and> score_qna lib u row = Inr (bs, det) \<and> bs0 < bs
          \<and> (\<forall>x \<in> set (r # pre). \<exists>s d. score_qna lib u x = Inr (s, d) \<and> s < bs)"
        using sd False by auto
      then have "\<exists>pre row det post. r # rows = pre @ row # post \<and> b = Some (row, det)
          \<and> score_qna lib u row = Inr (bs, det) \<and> bs0 < bs
          \<and> (\<forall>x \<in> set pre. \<exists>s d. score_qna lib u x = Inr (s, d) \<and> s < bs)"
        by blast
      with here le show ?thesis by blast
    qed
  qed
qed

lemma best_loop_total:
  "\<forall>r \<in> set rows. \<exists>s d. score_qna lib u r = Inr (s, d) \<Longrightarrow>
     \<exists>bs b. best_loop lib u rows st = Inr (bs, b)"
proof (induction rows arbitrary: st)
  case Nil
  then show ?case by (cases st) simp
next
  case (Cons r rows)
  then obtain s d where "score_qna lib u r = Inr (s, d)" by auto
  moreover have "\<forall>x \<in> set rows. \<exists>s d. score_qna lib u x = Inr (s, d)" using Cons.prems by simp
  ultimately show ?case using Cons.IH by simp
qed

lemma best_loop_selects:
  assumes "\<forall>r \<in> set rows. \<exists>s d. score_qna lib u r = Inr (s, d)"
    and "\<exists>r \<in> set rows. \<exists>s d. score_qna lib u r = Inr (s, d) \<and> - (10 ^ 9) < s"
  shows "\<exists>bs row det. best_loop lib u rows initial_best = Inr (bs, Some (row, det))"
proof -
  obtain bs b where run: "best_loop lib u rows (- (10 ^ 9), None) = Inr (bs, b)"
    using best_loop_total[OF assms(1)] by blast
  note res = best_loop_result[OF run]
  from assms(2) obtain r s d where r: "r \<in> set rows" "score_qna lib u r = Inr (s, d)"
    "- (10 ^ 9) < s" by blast
  from res r have "s \<le> bs" by fastforce
  with r have "bs \<noteq> - (10 ^ 9)" by simp
  with res have "\<exists>row det. b = Some (row, det)" by blast
  with run show ?thesis by (auto simp: initial_best_def)
qed


lemma fetch_qna_sorted: "sorted (map order_key (fetch_qna db b))"
  by (simp add: fetch_qna_def)





text \<open>
  Claim C2. For a bot with a non-empty candidate list, the selected best candidate is
  reported as matched exactly when its detail has \<open>exact\<close>, or the matched phrases and
  patterns together are more than zero, or its ratio is at least 0.55; otherwise the result
  is not matched and its answer is the fallback message of the bot. The ratio is a float and
  so is the bound: 0.55 is the double that the literal denotes,
  2476979795053773 / 4503599627370496, the least double that is at least 55/100.
\<close>

theorem match_decision:
  assumes "fetch_bot_by_slug db bot_slug = Some b"
    and "fetch_qna db (b_id b) \<noteq> []"
    and "best_loop lib (normalize_text user_message) (fetch_qna db (b_id b)) initial_best
           = Inr (bs, Some (row, det))"
  shows "\<exists>r. match_rule lib db DEBUG bot_slug user_message = Inr r
     \<and> (matched r \<longleftrightarrow>
          (exact det
           \<or> 0 < length (matched_keywords det) + length (matched_regex det)
           \<or> 2476979795053773 / 4503599627370496 \<le> ratio det))
     \<and> (\<not> matched r \<longrightarrow> r_answer r = fallback_message b)
     \<and> (matched r \<longrightarrow> r_answer r = answer row)"
  using assms
  by (simp add: match_rule_def Let_def is_match_def SIMILARITY_MIN_FOR_MATCH_def)

text \<open>
  Claim C9. The confidence of a result that \<open>match_rule\<close> returns is never negative: it is 0
  when the bot is unknown or has no candidates, and the greater of 0 and the best score when
  candidates were scored. A result is returned when the bot is unknown, when it has no
  candidates, and when every candidate is scored and some score exceeds \<open>-10**9\<close>.
\<close>

theorem confidence_clamped:
  "(match_rule lib db DEBUG bot_slug user_message = Inr r \<longrightarrow>
      0 \<le> confidence r
      \<and> confidence r =
          (case fetch_bot_by_slug db bot_slug of
             None \<Rightarrow> 0
           | Some b \<Rightarrow>
               if fetch_qna db (b_id b) = [] then 0
               else (case best_loop lib (normalize_text user_message) (fetch_qna db (b_id b))
                            initial_best of
                       Inl e \<Rightarrow> 0
                     | Inr st \<Rightarrow> max 0 (fst st))))
   \<and> ((fetch_bot_by_slug db bot_slug = None
        \<or> (\<exists>b. fetch_bot_by_slug db bot_slug = Some b
              \<and> (fetch_qna db (b_id b) = []
                  \<or> ((\<forall>q \<in> set (fetch_qna db (b_id b)).
                         \<exists>s d. score_qna lib (normalize_text user_message) q = Inr (s, d))
                      \<and> (\<exists>q \<in> set (fetch_qna db (b_id b)).
                         \<exists>s d. score_qna lib (normalize_text user_message) q = Inr (s, d)
                           \<and> - (10 ^ 9) < s))))) \<longrightarrow>
      (\<exists>r'. match_rule lib db DEBUG bot_slug user_message = Inr r'))"
  (is "(?ret \<longrightarrow> ?conf) \<and> (?pre \<longrightarrow> ?returns)")
proof (rule conjI)
  show "?ret \<longrightarrow> ?conf"
    by (auto simp: match_rule_def Let_def split: option.splits if_splits sum.splits prod.splits)
next
  show "?pre \<longrightarrow> ?returns"
  proof
  assume h: ?pre
  show ?returns
  proof (cases "fetch_bot_by_slug db bot_slug")
    case None
    then show ?thesis by (simp add: match_rule_def)
  next
    case (Some b)
    show ?thesis
    proof (cases "fetch_qna db (b_id b) = []")
      case True
      with Some show ?thesis by (simp add: match_rule_def)
    next
      case False
      with h Some have all: "\<forall>q \<in> set (fetch_qna db (b_id b)).
            \<exists>s d. score_qna lib (normalize_text user_message) q = Inr (s, d)"
        and some: "\<exists>q \<in> set (fetch_qna db (b_id b)).
            \<exists>s d. score_qna lib (normalize_text user_message) q = Inr (s, d) \<and> - (10 ^ 9) < s"
        by auto
      obtain bs row det where "best_loop lib (normalize_text user_message)
          (fetch_qna db (b_id b)) initial_best = Inr (bs, Some (row, det))"
        using best_loop_selects[OF all some] by blast
      with Some False show ?thesis by (simp add: match_rule_def Let_def)
    qed
  qed
  qed
qed

text \<open>
  With \<open>DEBUG\<close> off no score detail is put into the result: the key \<open>debug\<close> is absent or
  holds \<open>None\<close>.
\<close>

lemma debug_off_no_detail:
  "match_rule lib db False bot_slug user_message = Inr r \<Longrightarrow> debug r = None \<or> debug r = Some None"
  by (auto simp: match_rule_def Let_def split: option.splits if_splits sum.splits prod.splits)

lemma example_fetch_bot: "fetch_bot_by_slug (example_db rows) ''cafe'' = Some example_bot"
  by (simp add: fetch_bot_by_slug_def example_db_def example_bot_def)

lemma example_fetch_one:
  "fetch_qna (example_db [example_row i q k p]) (b_id example_bot) = [example_row i q k p]"
  by (simp add: fetch_qna_def example_db_def example_bot_def example_row_def)

text \<open>
  Claim C5 says that with the debug flag off the result has no \<open>debug\<close> field, matched or
  not. The docstring of \<open>match_rule\<close> says the same (\<open>"debug": {...}  # only if
  RULEBOT_DEBUG=1\<close>) and the matched branch omits the key; the branch of the unmatched
  result always sets the key, to \<open>None\<close> when \<open>DEBUG\<close> is off.
\<close>

theorem debug_key_present_when_unmatched:
  "match_rule example_lib (example_db [example_row 1 ''hours'' None (Some 1)]) False ''cafe'' ''zzz''
     = Inr \<lparr>matched = False, r_answer = ''fallback'', r_question = None, qna_id = None,
            confidence = 2, debug = Some None\<rparr>"
  by code_simp

lemma example_normalize_abcx: "normalize_text ''abcx'' = ''abcx''"
  by code_simp

lemma example_normalize_ac: "normalize_text ''ac'' = ''ac''"
  by code_simp

lemma example_ratio_scores:
  "score_qna example_lib ''abcx'' (example_row 1 ''abcd'' None (Some 1)) =
     Inr (24, \<lparr>matched_keywords = [], matched_regex = [], exact = False, ratio = 3 / 4,
              d_priority = 1\<rparr>)"
  "score_qna example_lib ''ac'' (example_row 1 ''ab'' None (Some 1)) =
     Inr (17, \<lparr>matched_keywords = [], matched_regex = [], exact = False, ratio = 1 / 2,
              d_priority = 1\<rparr>)"
  by code_simp+

text \<open>
  Two candidates that neither equal the user text nor have keywords: the one with ratio 0.75
  is matched, the one with ratio 0.5 is not.
\<close>

theorem match_decision_witness:
  "fetch_bot_by_slug (example_db [example_row 1 ''abcd'' None (Some 1)]) ''cafe'' = Some example_bot
   \<and> fetch_qna (example_db [example_row 1 ''abcd'' None (Some 1)]) (b_id example_bot) \<noteq> []
   \<and> best_loop example_lib (normalize_text ''abcx'')
        (fetch_qna (example_db [example_row 1 ''abcd'' None (Some 1)]) (b_id example_bot))
        initial_best
      = Inr (24, Some (example_row 1 ''abcd'' None (Some 1),
          \<lparr>matched_keywords = [], matched_regex = [], exact = False, ratio = 3 / 4,
           d_priority = 1\<rparr>))
   \<and> (\<exists>r. match_rule example_lib (example_db [example_row 1 ''abcd'' None (Some 1)]) False
              ''cafe'' ''abcx'' = Inr r
          \<and> matched r \<and> r_answer r = ''answer'')
   \<and> best_loop example_lib (normalize_text ''ac'')
        (fetch_qna (example_db [example_row 1 ''ab'' None (Some 1)]) (b_id example_bot))
        initial_best
      = Inr (17, Some (example_row 1 ''ab'' None (Some 1),
          \<lparr>matched_keywords = [], matched_regex = [], exact = False, ratio = 1 / 2,
           d_priority = 1\<rparr>))
   \<and> (\<exists>r. match_rule example_lib (example_db [example_row 1 ''ab'' None (Some 1)]) False
              ''cafe'' ''ac'' = Inr r
          \<and> \<not> matched r \<and> r_answer r = ''fallback'')"
proof -
  let ?r1 = "example_row 1 ''abcd'' None (Some 1)"
  let ?d1 = "\<lparr>matched_keywords = [], matched_regex = [], exact = False, ratio = 3 / 4,
    d_priority = 1\<rparr>"
  let ?r2 = "example_row 1 ''ab'' None (Some 1)"
  let ?d2 = "\<lparr>matched_keywords = [], matched_regex = [], exact = False, ratio = 1 / 2,
    d_priority = 1\<rparr>"
  have h1: "fetch_bot_by_slug (example_db [?r1]) ''cafe'' = Some example_bot"
    by (rule example_fetch_bot)
  have h2: "fetch_qna (example_db [?r1]) (b_id example_bot) \<noteq> []"
    by (simp add: example_fetch_one)
  have h3: "best_loop example_lib (normalize_text ''abcx'')
      (fetch_qna (example_db [?r1]) (b_id example_bot)) initial_best = Inr (24, Some (?r1, ?d1))"
    by (simp add: example_fetch_one example_normalize_abcx example_ratio_scores initial_best_def)
  have a: "answer ?r1 = ''answer''" by (simp add: example_row_def)
  from match_decision[OF h1 h2 h3, of False] a
  have m1: "\<exists>r. match_rule example_lib (example_db [?r1]) False ''cafe'' ''abcx'' = Inr r
          \<and> matched r \<and> r_answer r = ''answer''"
    by auto
  have g1: "fetch_bot_by_slug (example_db [?r2]) ''cafe'' = Some example_bot"
    by (rule example_fetch_bot)
  have g2: "fetch_qna (example_db [?r2]) (b_id example_bot) \<noteq> []"
    by (simp add: example_fetch_one)
  have g3: "best_loop example_lib (normalize_text ''ac'')
      (fetch_qna (example_db [?r2]) (b_id example_bot)) initial_best = Inr (17, Some (?r2, ?d2))"
    by (simp add: example_fetch_one example_normalize_ac example_ratio_scores initial_best_def)
  have f: "fallback_message example_bot = ''fallback''" by (simp add: example_bot_def)
  from match_decision[OF g1 g2 g3, of False] f
  have m2: "\<exists>r. match_rule example_lib (example_db [?r2]) False ''cafe'' ''ac'' = Inr r
          \<and> \<not> matched r \<and> r_answer r = ''fallback''"
    by auto
  from h1 h2 h3 m1 g3 m2 show ?thesis by blast
qed

lemma example_negative_score:
  "score_qna example_lib ''zzz'' (example_row 1 ''hours'' None (Some (- 100))) =
     Inr (- 200, \<lparr>matched_keywords = [], matched_regex = [], exact = False, ratio = 0,
                 d_priority = - 100\<rparr>)"
  by code_simp

lemma example_negative_run:
  "match_rule example_lib (example_db [example_row 1 ''hours'' None (Some (- 100))]) False
      ''cafe'' ''zzz''
     = Inr \<lparr>matched = False, r_answer = ''fallback'', r_question = None, qna_id = None,
            confidence = 0, debug = Some None\<rparr>"
  by code_simp

lemma example_normalize_zzz: "normalize_text ''zzz'' = ''zzz''"
  by code_simp

theorem confidence_clamped_witness:
  "match_rule example_lib (example_db [example_row 1 ''hours'' None (Some (- 100))]) False
      ''cafe'' ''zzz''
     = Inr \<lparr>matched = False, r_answer = ''fallback'', r_question = None, qna_id = None,
            confidence = 0, debug = Some None\<rparr>
   \<and> score_qna example_lib (normalize_text ''zzz'') (example_row 1 ''hours'' None (Some (- 100))) =
     Inr (- 200, \<lparr>matched_keywords = [], matched_regex = [], exact = False, ratio = 0,
                 d_priority = - 100\<rparr>)
   \<and> (0::int) \<le> confidence \<lparr>matched = False, r_answer = ''fallback'', r_question = None,
            qna_id = None, confidence = 0, debug = Some None\<rparr>
   \<and> (\<exists>r'. match_rule example_lib (example_db [example_row 1 ''hours'' None (Some (- 100))])
              False ''cafe'' ''zzz'' = Inr r')"
proof -
  let ?row = "example_row 1 ''hours'' None (Some (- 100))"
  let ?db = "example_db [?row]"
  let ?R = "\<lparr>matched = False, r_answer = ''fallback'', r_question = None, qna_id = None,
            confidence = 0, debug = Some None\<rparr>"
  note inst = confidence_clamped[of example_lib ?db False "''cafe''" "''zzz''" ?R]
  have run: "match_rule example_lib ?db False ''cafe'' ''zzz'' = Inr ?R"
    by (rule example_negative_run)
  have sc: "score_qna example_lib (normalize_text ''zzz'') ?row =
     Inr (- 200, \<lparr>matched_keywords = [], matched_regex = [], exact = False, ratio = 0,
                 d_priority = - 100\<rparr>)"
    by (simp add: example_normalize_zzz example_negative_score)
  have c: "0 \<le> confidence ?R" using inst run by blast
  have pre: "\<exists>b. fetch_bot_by_slug ?db ''cafe'' = Some b
      \<and> (fetch_qna ?db (b_id b) = []
          \<or> ((\<forall>q \<in> set (fetch_qna ?db (b_id b)).
                 \<exists>s d. score_qna example_lib (normalize_text ''zzz'') q = Inr (s, d))
              \<and> (\<exists>q \<in> set (fetch_qna ?db (b_id b)).
                 \<exists>s d. score_qna example_lib (normalize_text ''zzz'') q = Inr (s, d)
                   \<and> - (10 ^ 9) < s)))"
    using example_fetch_bot[of "[?row]"] sc by (simp add: example_fetch_one)
  have r: "\<exists>r'. match_rule example_lib ?db False ''cafe'' ''zzz'' = Inr r'"
    using inst pre by blast
  from run sc c r show ?thesis by blast
qed

text \<open>
  When no score exceeds the initial running best \<open>-10**9\<close>, \<open>best_details\<close> is still \<open>None\<close>
  after the loop and subscripting it raises.
\<close>

lemma sentinel_leaves_no_best:
  "match_rule example_lib (example_db [example_row 1 ''hours'' None (Some (- 1000000000))]) False
      ''cafe'' ''zzz'' = Inl TypeError"
  by code_simp

end
